theory Spec2Isabelle
  imports Main "HOL-Library.Char_ord" "HOL-Library.List_Lexorder"
begin

section \<open>GTFS service-date resolution and trip filtering (parseGTFS)\<close>

text \<open>
  The development embeds \<^verbatim>\<open>parseGTFS\<close> of \<^verbatim>\<open>src/index.tsx\<close> (the same function is
  repeated in \<^verbatim>\<open>src/App.tsx\<close> as \<^verbatim>\<open>utils/gtfs\<close>) together with the station table.

  Conventions of the embedding.
  \<^item> A JavaScript string is a \<^typ>\<open>string\<close>: a list of code units, each below 256
    (\<^typ>\<open>char\<close> is eight bits wide). The order \<open>\<le>\<close> on \<^typ>\<open>string\<close> is the
    lexicographic order on code units, which is what \<^verbatim>\<open><=\<close> and \<^verbatim>\<open>>=\<close> compute on
    two JavaScript strings.
  \<^item> A value that may be \<^verbatim>\<open>undefined\<close> (an array read out of range, or at index
    \<open>-1\<close>) is a \<^typ>\<open>string option\<close>, with \<open>None\<close> for \<^verbatim>\<open>undefined\<close>.
  \<^item> A number that may be \<^verbatim>\<open>NaN\<close> is an \<^typ>\<open>int option\<close>, with \<open>None\<close> for
    \<^verbatim>\<open>NaN\<close>. Rounding of integers beyond \<open>2^53\<close> is not modelled.
  \<^item> A \<^verbatim>\<open>Set\<close> is a duplicate-free list in insertion order; a \<^verbatim>\<open>Map\<close> and a plain
    object used as a dictionary are association lists in insertion order.
  \<^item> A thrown exception is the left summand of a result.
  \<^item> A test \<^verbatim>\<open>if (txt)\<close> on a value that is \<^verbatim>\<open>null\<close> or a string is a case
    distinction on the option followed by a test for the empty string, which is
    falsy. The field \<^verbatim>\<open>id\<close> of a parsed trip is \<open>id_trip\<close>.
  \<^item> The host's \<^verbatim>\<open>String.prototype.localeCompare\<close> is a parameter \<open>lc\<close>; the three
    values computed by \<^verbatim>\<open>getDateInfo\<close> (which needs the host's \<^verbatim>\<open>Date\<close>) are the
    fields of the parameter \<open>di\<close>; the loaded archive is a function from member
    names to contents.
\<close>

subsection \<open>Types and constants\<close>

record StationDef =
  orden :: nat
  estacion :: string
  codigo :: string

record StopTime =
  trip_id :: "string option"
  arrival_time :: string
  departure_time :: "string option"
  stop_id :: string
  stop_sequence :: "int option"

record ParsedTrip =
  id_trip :: "string option"
  stops :: "(string \<times> string) list"
  firstStopOrder :: nat
  lastStopOrder :: nat
  departureFromOrigin :: string

record dateInfo =
  dateStr :: string
  dayName :: string
  formattedDate :: string

record parseResult =
  toBrinkola :: "ParsedTrip list"
  toIrun :: "ParsedTrip list"
  dateUsed :: string

datatype error = Error string | TypeError

definition mkStation :: "nat \<Rightarrow> string \<Rightarrow> string \<Rightarrow> StationDef" where
  "mkStation n e c = \<lparr>orden = n, estacion = e, codigo = c\<rparr>"

definition GIPUZKOA_STATIONS :: "StationDef list" where
  "GIPUZKOA_STATIONS =
   [mkStation 1 (''Ir'' @ [CHR 0xFA] @ ''n'') ''11600'',
    mkStation 2 (''Ventas de Ir'' @ [CHR 0xFA] @ ''n'') ''11518'',
    mkStation 3 (''Lezo-Renter'' @ [CHR 0xED] @ ''a'') ''11516'',
    mkStation 4 ''Pasaia'' ''11515'',
    mkStation 5 ''Herrera'' ''11514'',
    mkStation 6 ''Ategorrieta'' ''11513'',
    mkStation 7 ''Gros'' ''11512'',
    mkStation 8 (''San Sebasti'' @ [CHR 0xE1] @ ''n'') ''11511'',
    mkStation 9 ''Loiola'' ''11510'',
    mkStation 10 ''Martutene'' ''11509'',
    mkStation 11 ''Hernani'' ''11508'',
    mkStation 12 ''Hernani-Centro'' ''11507'',
    mkStation 13 ''Urnieta'' ''11506'',
    mkStation 14 ''Andoain'' ''11505'',
    mkStation 15 ''Andoain-Centro'' ''11504'',
    mkStation 16 ''Villabona-Zizurkil'' ''11503'',
    mkStation 17 ''Anoeta'' ''11502'',
    mkStation 18 ''Tolosa-Centro'' ''11501'',
    mkStation 19 ''Tolosa'' ''11500'',
    mkStation 20 ''Alegia'' ''11409'',
    mkStation 21 ''Itsasondo'' ''11406'',
    mkStation 22 ''Ordizia'' ''11405'',
    mkStation 23 ''Beasain'' ''11404'',
    mkStation 24 ''Ormaiztegi'' ''11402'',
    mkStation 25 (''Zum'' @ [CHR 0xE1] @ ''rraga'') ''11400'',
    mkStation 26 ''Legazpi'' ''11306'',
    mkStation 27 (''Br'' @ [CHR 0xED] @ ''ncola'') ''11305'']"

subsection \<open>Strings, arrays, sets and maps of the host language\<close>

text \<open>\<^verbatim>\<open>String.prototype.trim\<close>: white space and line terminators below 256.\<close>

definition isWhiteSpace :: "char \<Rightarrow> bool" where
  "isWhiteSpace c \<longleftrightarrow>
     c \<in> set [CHR 0x09, CHR 0x0A, CHR 0x0B, CHR 0x0C, CHR 0x0D, CHR 0x20, CHR 0xA0]"

definition trim :: "string \<Rightarrow> string" where
  "trim s = rev (dropWhile isWhiteSpace (rev (dropWhile isWhiteSpace s)))"

definition cleanId :: "string \<Rightarrow> string" where
  "cleanId i = trim i"

text \<open>\<^verbatim>\<open>s.split(c)\<close> for a one-character separator; the result is never empty.\<close>

fun split :: "char \<Rightarrow> string \<Rightarrow> string list" where
  "split c [] = [[]]"
| "split c (x # xs) =
     (if x = c then [] # split c xs
      else (case split c xs of [] \<Rightarrow> [[x]] | l # ls \<Rightarrow> (x # l) # ls))"

text \<open>\<^verbatim>\<open>arr.indexOf(x)\<close>: the first position of \<open>x\<close>, or \<open>-1\<close>.\<close>

fun indexOf :: "string list \<Rightarrow> string \<Rightarrow> int" where
  "indexOf [] x = - 1"
| "indexOf (h # hs) x =
     (if h = x then 0 else (let r = indexOf hs x in if r = - 1 then - 1 else r + 1))"

text \<open>\<^verbatim>\<open>arr[i]\<close>: \<^verbatim>\<open>undefined\<close> at \<open>-1\<close> and beyond the end.\<close>

definition at :: "'a list \<Rightarrow> int \<Rightarrow> 'a option" where
  "at xs i = (if 0 \<le> i \<and> nat i < length xs then Some (xs ! nat i) else None)"

text \<open>
  \<^verbatim>\<open>d >= x\<close> and \<^verbatim>\<open>d <= x\<close> for a string \<open>d\<close>: against \<^verbatim>\<open>undefined\<close> both operands
  become numbers, \<^verbatim>\<open>undefined\<close> becomes \<^verbatim>\<open>NaN\<close>, and the comparison is false.
\<close>

definition js_ge :: "string \<Rightarrow> string option \<Rightarrow> bool" where
  "js_ge d x = (case x of None \<Rightarrow> False | Some s \<Rightarrow> s \<le> d)"

definition js_le :: "string \<Rightarrow> string option \<Rightarrow> bool" where
  "js_le d x = (case x of None \<Rightarrow> False | Some s \<Rightarrow> d \<le> s)"

type_synonym 'a jsSet = "'a list"

definition set_add :: "'a \<Rightarrow> 'a jsSet \<Rightarrow> 'a jsSet" where
  "set_add x s = (if x \<in> set s then s else s @ [x])"

definition set_delete :: "'a \<Rightarrow> 'a jsSet \<Rightarrow> 'a jsSet" where
  "set_delete x s = filter (\<lambda>y. y \<noteq> x) s"

definition set_has :: "'a jsSet \<Rightarrow> 'a \<Rightarrow> bool" where
  "set_has s x \<longleftrightarrow> x \<in> set s"

definition set_size :: "'a jsSet \<Rightarrow> nat" where
  "set_size s = length s"

text \<open>\<^verbatim>\<open>m.set(k, v)\<close> and \<^verbatim>\<open>obj[k] = v\<close>: overwrite in place, or append a new key.\<close>

fun map_set :: "'k \<Rightarrow> 'v \<Rightarrow> ('k \<times> 'v) list \<Rightarrow> ('k \<times> 'v) list" where
  "map_set k v [] = [(k, v)]"
| "map_set k v ((k', v') # m) =
     (if k' = k then (k, v) # m else (k', v') # map_set k v m)"

definition map_get :: "('k \<times> 'v) list \<Rightarrow> 'k \<Rightarrow> 'v option" where
  "map_get m k = map_of m k"

text \<open>\<^verbatim>\<open>new Map(pairs)\<close> and \<^verbatim>\<open>new Set(items)\<close>.\<close>

definition new_Map :: "('k \<times> 'v) list \<Rightarrow> ('k \<times> 'v) list" where
  "new_Map ps = fold (\<lambda>(k, v) m. map_set k v m) ps []"

definition new_Set :: "'a list \<Rightarrow> 'a jsSet" where
  "new_Set xs = fold set_add xs []"

text \<open>
  \<^verbatim>\<open>arr.sort(cmp)\<close>: a stable sort. An element moves in front of another when the
  comparator's result is negative, and stays in front of a later one when it is
  zero. (For a comparator that is not consistent the language leaves the order to
  the implementation; the model then fixes this insertion sort.)
\<close>

fun sort_insert :: "('a \<Rightarrow> 'a \<Rightarrow> int) \<Rightarrow> 'a \<Rightarrow> 'a list \<Rightarrow> 'a list" where
  "sort_insert cmp x [] = [x]"
| "sort_insert cmp x (y # ys) =
     (if cmp x y \<le> 0 then x # y # ys else y # sort_insert cmp x ys)"

fun js_sort :: "('a \<Rightarrow> 'a \<Rightarrow> int) \<Rightarrow> 'a list \<Rightarrow> 'a list" where
  "js_sort cmp [] = []"
| "js_sort cmp (x # xs) = sort_insert cmp x (js_sort cmp xs)"

text \<open>
  \<^verbatim>\<open>parseInt(x)\<close> with no radix: \<^verbatim>\<open>undefined\<close> is read as the text "undefined";
  leading white space is dropped, a sign is read, a prefix \<^verbatim>\<open>0x\<close>/\<^verbatim>\<open>0X\<close> selects
  radix 16, and the longest run of digits is the value; with no digit the result
  is \<^verbatim>\<open>NaN\<close>. Nothing is thrown.
\<close>

definition digitVal :: "char \<Rightarrow> nat option" where
  "digitVal c =
     (let n = (of_char c :: nat) in
      if 48 \<le> n \<and> n \<le> 57 then Some (n - 48)
      else if 97 \<le> n \<and> n \<le> 122 then Some (n - 87)
      else if 65 \<le> n \<and> n \<le> 90 then Some (n - 55)
      else None)"

definition isDigitIn :: "nat \<Rightarrow> char \<Rightarrow> bool" where
  "isDigitIn r c = (case digitVal c of None \<Rightarrow> False | Some d \<Rightarrow> d < r)"

definition digitsValue :: "nat \<Rightarrow> string \<Rightarrow> nat" where
  "digitsValue r ds =
     fold (\<lambda>c acc. acc * r + (case digitVal c of None \<Rightarrow> 0 | Some d \<Rightarrow> d)) ds 0"

definition parseDigits :: "nat \<Rightarrow> string \<Rightarrow> nat option" where
  "parseDigits r s =
     (let ds = takeWhile (isDigitIn r) s in
      if ds = [] then None else Some (digitsValue r ds))"

definition parseUnsigned :: "string \<Rightarrow> nat option" where
  "parseUnsigned s =
     (case s of
        c1 # c2 # rest \<Rightarrow>
          (if c1 = CHR ''0'' \<and> (c2 = CHR ''x'' \<or> c2 = CHR ''X'')
           then parseDigits 16 rest else parseDigits 10 s)
      | _ \<Rightarrow> parseDigits 10 s)"

definition parseInt :: "string option \<Rightarrow> int option" where
  "parseInt x =
     (let s = dropWhile isWhiteSpace (case x of None \<Rightarrow> ''undefined'' | Some t \<Rightarrow> t) in
      case s of
        [] \<Rightarrow> None
      | c # rest \<Rightarrow>
          (if c = CHR ''-'' then map_option (\<lambda>n. - int n) (parseUnsigned rest)
           else if c = CHR ''+'' then map_option int (parseUnsigned rest)
           else map_option int (parseUnsigned s)))"

text \<open>\<^verbatim>\<open>String(n)\<close> for a non-negative integer.\<close>

fun String_nat :: "nat \<Rightarrow> string" where
  "String_nat n =
     (if n < 10 then [char_of (48 + n)]
      else String_nat (n div 10) @ [char_of (48 + n mod 10)])"

text \<open>A loop whose body may throw: the first exception ends it.\<close>

fun forEachE :: "('a \<Rightarrow> 's \<Rightarrow> error + 's) \<Rightarrow> 'a list \<Rightarrow> 's \<Rightarrow> error + 's" where
  "forEachE f [] s = Inr s"
| "forEachE f (x # xs) s =
     (case f x s of Inl e \<Rightarrow> Inl e | Inr s' \<Rightarrow> forEachE f xs s')"

text \<open>
  Every table is read the same way: \<^verbatim>\<open>lines = txt.split('\n')\<close>, the header is
  \<^verbatim>\<open>lines[0].trim().split(',')\<close> (the array of lines is never empty), and the
  loop runs over \<^verbatim>\<open>lines[1]\<close>, \<^verbatim>\<open>lines[2]\<close>, ...
\<close>

definition headerOf :: "string \<Rightarrow> string list" where
  "headerOf txt = split CHR '','' (trim (split CHR 0x0A txt ! 0))"

definition bodyOf :: "string \<Rightarrow> string list" where
  "bodyOf txt = drop 1 (split CHR 0x0A txt)"

subsection \<open>Step 1: the corridor's stop codes\<close>

definition validStopCodes :: "string jsSet" where
  "validStopCodes = new_Set (map codigo GIPUZKOA_STATIONS)"

definition codeToOrder :: "(string \<times> nat) list" where
  "codeToOrder = new_Map (map (\<lambda>s. (codigo s, orden s)) GIPUZKOA_STATIONS)"

subsection \<open>Step 2a: calendar.txt\<close>

text \<open>The body of the loop over the lines after the header.\<close>

definition calendarRow ::
  "int \<Rightarrow> int \<Rightarrow> int \<Rightarrow> int \<Rightarrow> string \<Rightarrow> string \<Rightarrow> string option jsSet \<Rightarrow> string option jsSet"
where
  "calendarRow iService iDay iStart iEnd d rawLine activeServices =
     (let line = trim rawLine in
      if line = [] then activeServices
      else
        let cols = split CHR '','' line;
            serviceId = at cols iService;
            isActiveDay = (at cols iDay = Some ''1'');
            startDate = at cols iStart;
            endDate = at cols iEnd
        in if isActiveDay \<and> js_ge d startDate \<and> js_le d endDate
           then set_add serviceId activeServices else activeServices)"

definition baseCalendar ::
  "string option \<Rightarrow> dateInfo \<Rightarrow> string option jsSet \<Rightarrow> string option jsSet"
where
  "baseCalendar calendarTxt di activeServices =
     (case calendarTxt of
        None \<Rightarrow> activeServices
      | Some txt \<Rightarrow>
          if txt = [] then activeServices
          else
            let headers = headerOf txt;
                iService = indexOf headers ''service_id'';
                iDay = indexOf headers (dayName di);
                iStart = indexOf headers ''start_date'';
                iEnd = indexOf headers ''end_date''
            in if iService \<noteq> - 1 \<and> iDay \<noteq> - 1 \<and> iStart \<noteq> - 1 \<and> iEnd \<noteq> - 1
               then fold (calendarRow iService iDay iStart iEnd (dateStr di)) (bodyOf txt)
                      activeServices
               else activeServices)"

subsection \<open>Step 2b: calendar_dates.txt\<close>

definition exceptionRow ::
  "int \<Rightarrow> int \<Rightarrow> int \<Rightarrow> string \<Rightarrow> string \<Rightarrow> string option jsSet \<Rightarrow> string option jsSet"
where
  "exceptionRow iService iDate iType d rawLine activeServices =
     (let line = trim rawLine in
      if line = [] then activeServices
      else
        let cols = split CHR '','' line in
        if at cols iDate = Some d then
          (let type = at cols iType;
               serviceId = at cols iService
           in if type = Some ''1'' then set_add serviceId activeServices
              else if type = Some ''2'' then set_delete serviceId activeServices
              else activeServices)
        else activeServices)"

definition calendarDates ::
  "string option \<Rightarrow> dateInfo \<Rightarrow> string option jsSet \<Rightarrow> string option jsSet"
where
  "calendarDates calendarDatesTxt di activeServices =
     (case calendarDatesTxt of
        None \<Rightarrow> activeServices
      | Some txt \<Rightarrow>
          if txt = [] then activeServices
          else
            let headers = headerOf txt;
                iService = indexOf headers ''service_id'';
                iDate = indexOf headers ''date'';
                iType = indexOf headers ''exception_type''
            in if iService \<noteq> - 1 \<and> iDate \<noteq> - 1 \<and> iType \<noteq> - 1
               then fold (exceptionRow iService iDate iType (dateStr di)) (bodyOf txt)
                      activeServices
               else activeServices)"

text \<open>The active services of the selected date: step 2a, then step 2b.\<close>

definition resolveServices ::
  "string option \<Rightarrow> string option \<Rightarrow> dateInfo \<Rightarrow> string option jsSet"
where
  "resolveServices calendarTxt calendarDatesTxt di =
     calendarDates calendarDatesTxt di (baseCalendar calendarTxt di [])"

subsection \<open>Step 3: trips.txt\<close>

type_synonym tripState = "string option jsSet \<times> (string option \<times> string option) list"

definition tripRow ::
  "int \<Rightarrow> int \<Rightarrow> string option jsSet \<Rightarrow> string \<Rightarrow> tripState \<Rightarrow> tripState"
where
  "tripRow iTrip iService activeServices line st =
     (if line = [] then st
      else
        let cols = split CHR '','' line;
            tripId = at cols iTrip;
            serviceId = at cols iService
        in if set_has activeServices serviceId
           then (set_add tripId (fst st), map_set tripId serviceId (snd st))
           else st)"

text \<open>The text is present and not empty here; the caller has checked it.\<close>

definition filterTrips :: "string \<Rightarrow> string option jsSet \<Rightarrow> tripState" where
  "filterTrips tripsTxt activeServices =
     (let tripsHeader = headerOf tripsTxt;
          iTrip = indexOf tripsHeader ''trip_id'';
          iService = indexOf tripsHeader ''service_id''
      in fold (tripRow iTrip iService activeServices) (bodyOf tripsTxt) ([], []))"

subsection \<open>Step 4: stop_times.txt\<close>

type_synonym tripStops = "(string option \<times> StopTime list) list"

definition pushStop :: "string option \<Rightarrow> StopTime \<Rightarrow> tripStops \<Rightarrow> tripStops" where
  "pushStop tripId st ts =
     (let ts1 = (if map_get ts tripId = None then map_set tripId [] ts else ts) in
      case map_get ts1 tripId of
        None \<Rightarrow> ts1
      | Some xs \<Rightarrow> map_set tripId (xs @ [st]) ts1)"

definition stopTimeRow ::
  "int \<Rightarrow> int \<Rightarrow> int \<Rightarrow> int \<Rightarrow> string option jsSet \<Rightarrow> string \<Rightarrow> tripStops \<Rightarrow> error + tripStops"
where
  "stopTimeRow iTrip iDep iStop iSeq activeTrips line ts =
     (if line = [] then Inr ts
      else
        let cols = split CHR '','' line;
            tripId = at cols iTrip
        in if set_has activeTrips tripId then
             (case at cols iStop of
                None \<Rightarrow> Inl TypeError
              | Some raw \<Rightarrow>
                  let stopId = cleanId raw in
                  if set_has validStopCodes stopId then
                    Inr (pushStop tripId
                          \<lparr>trip_id = tripId, arrival_time = [],
                           departure_time = at cols iDep, stop_id = stopId,
                           stop_sequence = parseInt (at cols iSeq)\<rparr> ts)
                  else Inr ts)
           else Inr ts)"

definition readStopTimes :: "string \<Rightarrow> string option jsSet \<Rightarrow> error + tripStops" where
  "readStopTimes stopTimesTxt activeTrips =
     (let stHeaders = headerOf stopTimesTxt;
          iTrip = indexOf stHeaders ''trip_id'';
          iDep = indexOf stHeaders ''departure_time'';
          iStop = indexOf stHeaders ''stop_id'';
          iSeq = indexOf stHeaders ''stop_sequence''
      in forEachE (stopTimeRow iTrip iDep iStop iSeq activeTrips) (bodyOf stopTimesTxt) [])"

subsection \<open>Step 5: directions\<close>

text \<open>
  \<^verbatim>\<open>(a, b) => a.stop_sequence - b.stop_sequence\<close>; the sort reads \<^verbatim>\<open>NaN\<close> as 0.
\<close>

definition seqCompare :: "StopTime \<Rightarrow> StopTime \<Rightarrow> int" where
  "seqCompare a b =
     (case stop_sequence a of
        None \<Rightarrow> 0
      | Some x \<Rightarrow> (case stop_sequence b of None \<Rightarrow> 0 | Some y \<Rightarrow> x - y))"

text \<open>\<^verbatim>\<open>s.departure_time.substring(0, 5)\<close> throws on \<^verbatim>\<open>undefined\<close>.\<close>

definition stopsMapStep :: "StopTime \<Rightarrow> (string \<times> string) list \<Rightarrow> error + (string \<times> string) list" where
  "stopsMapStep s stopsMap =
     (case departure_time s of
        None \<Rightarrow> Inl TypeError
      | Some t \<Rightarrow> Inr (map_set (stop_id s) (take 5 t) stopsMap))"

type_synonym directions = "ParsedTrip list \<times> ParsedTrip list"

text \<open>
  The callback of \<^verbatim>\<open>tripStops.forEach\<close>. The pair holds \<^verbatim>\<open>toBrinkola\<close> and
  \<^verbatim>\<open>toIrun\<close>. The last \<open>None\<close> branch cannot be taken: the loop over the stops
  has already thrown for a first stop without a departure time.
\<close>

definition classifyTrip :: "string option \<times> StopTime list \<Rightarrow> directions \<Rightarrow> error + directions" where
  "classifyTrip entry acc =
     (let tripId = fst entry;
          stops = js_sort seqCompare (snd entry)
      in if length stops < 2 then Inr acc
         else
           let firstStop = hd stops;
               lastStop = last stops
           in case map_get codeToOrder (stop_id firstStop) of
                None \<Rightarrow> Inr acc
              | Some firstOrder \<Rightarrow>
                 (case map_get codeToOrder (stop_id lastStop) of
                    None \<Rightarrow> Inr acc
                  | Some lastOrder \<Rightarrow>
                     (case forEachE stopsMapStep stops [] of
                        Inl e \<Rightarrow> Inl e
                      | Inr stopsMap \<Rightarrow>
                         (case departure_time firstStop of
                            None \<Rightarrow> Inl TypeError
                          | Some dep \<Rightarrow>
                              let parsedTrip =
                                    \<lparr>id_trip = tripId, stops = stopsMap,
                                     firstStopOrder = firstOrder,
                                     lastStopOrder = lastOrder,
                                     departureFromOrigin = dep\<rparr>
                              in if firstOrder < lastOrder
                                 then Inr (fst acc @ [parsedTrip], snd acc)
                                 else Inr (fst acc, snd acc @ [parsedTrip])))))"

definition buildResults :: "tripStops \<Rightarrow> error + directions" where
  "buildResults ts = forEachE classifyTrip ts ([], [])"

text \<open>\<^verbatim>\<open>timeCompare\<close>, over the host's \<^verbatim>\<open>localeCompare\<close>.\<close>

definition timeCompare :: "(string \<Rightarrow> string \<Rightarrow> int) \<Rightarrow> ParsedTrip \<Rightarrow> ParsedTrip \<Rightarrow> int" where
  "timeCompare lc a b = lc (departureFromOrigin a) (departureFromOrigin b)"

subsection \<open>The whole function\<close>

definition readFile :: "(string \<Rightarrow> string option) \<Rightarrow> string \<Rightarrow> string option" where
  "readFile content filename = content filename"

definition msgFiltering :: "dateInfo \<Rightarrow> string" where
  "msgFiltering di =
     ''Filtrando para fecha: '' @ formattedDate di @ '' ('' @ dayName di @ '')...''"

definition msgCalendar :: string where
  "msgCalendar = ''Analizando calendario y excepciones...''"

definition msgTrips :: "nat \<Rightarrow> string" where
  "msgTrips n = ''Procesando viajes activos ('' @ String_nat n @ '' servicios)...''"

definition msgStopTimes :: string where
  "msgStopTimes = ''Leyendo horarios...''"

definition msgDirections :: string where
  "msgDirections = ''Organizando direcciones...''"

definition errNoServices :: "dateInfo \<Rightarrow> error" where
  "errNoServices di =
     Error (''No se encontraron servicios activos para la fecha '' @ formattedDate di @ ''.'')"

definition errMissing :: "string \<Rightarrow> error" where
  "errMissing filename = Error (''No se encontr'' @ [CHR 0xF3] @ '' '' @ filename)"

text \<open>
  The result pairs the messages passed to \<^verbatim>\<open>onProgress\<close>, in order, with the
  thrown exception or the returned value. The function is cut in two where the
  source says "5. Build Result Arrays": \<open>collectTripStops\<close> is everything before,
  and ends with the value of \<^verbatim>\<open>tripStops\<close>.
\<close>

definition collectTripStops ::
  "(string \<Rightarrow> string option) \<Rightarrow> dateInfo \<Rightarrow> string list \<times> (error + tripStops)"
where
  "collectTripStops content di =
     (let log1 = [msgFiltering di];
          log2 = log1 @ [msgCalendar];
          activeServices =
            resolveServices (readFile content ''calendar.txt'')
              (readFile content ''calendar_dates.txt'') di
      in if set_size activeServices = 0 then (log2, Inl (errNoServices di))
         else
           let log3 = log2 @ [msgTrips (set_size activeServices)] in
           case readFile content ''trips.txt'' of
             None \<Rightarrow> (log3, Inl (errMissing ''trips.txt''))
           | Some tripsTxt \<Rightarrow>
              if tripsTxt = [] then (log3, Inl (errMissing ''trips.txt''))
              else
                let activeTrips = fst (filterTrips tripsTxt activeServices);
                    log4 = log3 @ [msgStopTimes]
                in case readFile content ''stop_times.txt'' of
                     None \<Rightarrow> (log4, Inl (errMissing ''stop_times.txt''))
                   | Some stopTimesTxt \<Rightarrow>
                      if stopTimesTxt = []
                      then (log4, Inl (errMissing ''stop_times.txt''))
                      else (log4, readStopTimes stopTimesTxt activeTrips))"

definition parseGTFS ::
  "(string \<Rightarrow> string \<Rightarrow> int) \<Rightarrow> (string \<Rightarrow> string option) \<Rightarrow> dateInfo
     \<Rightarrow> string list \<times> (error + parseResult)"
where
  "parseGTFS lc content di =
     (case collectTripStops content di of
        (log4, Inl e) \<Rightarrow> (log4, Inl e)
      | (log4, Inr ts) \<Rightarrow>
          let log5 = log4 @ [msgDirections] in
          (case buildResults ts of
             Inl e \<Rightarrow> (log5, Inl e)
           | Inr dirs \<Rightarrow>
               (log5,
                Inr \<lparr>toBrinkola = js_sort (timeCompare lc) (fst dirs),
                     toIrun = js_sort (timeCompare lc) (snd dirs),
                     dateUsed = formattedDate di\<rparr>)))"

subsection \<open>Vocabulary of the statements\<close>

text \<open>
  The data rows of a table, as both calendar loops read them: the lines after the
  header, trimmed, the empty ones dropped, split at commas. \<open>field\<close> is the
  source's \<^verbatim>\<open>cols[idx.name]\<close>. \<open>inRange\<close> is
  \<^verbatim>\<open>dateStr >= startDate && dateStr <= endDate\<close> written out on code units. The
  deciding rows of a service are the exception rows of the selected date that
  name it with type \<^verbatim>\<open>1\<close> or \<^verbatim>\<open>2\<close>, in file order.
\<close>

definition rowsOf :: "string \<Rightarrow> string list list" where
  "rowsOf txt = map (split CHR '','') (filter (\<lambda>l. l \<noteq> []) (map trim (bodyOf txt)))"

definition field :: "string list \<Rightarrow> string \<Rightarrow> string list \<Rightarrow> string option" where
  "field headers name cols = at cols (indexOf headers name)"

definition inRange :: "string \<Rightarrow> string option \<Rightarrow> string option \<Rightarrow> bool" where
  "inRange d startDate endDate =
     (case startDate of
        None \<Rightarrow> False
      | Some a \<Rightarrow> (case endDate of None \<Rightarrow> False | Some b \<Rightarrow> a \<le> d \<and> d \<le> b))"

definition decidingRows :: "string \<Rightarrow> string \<Rightarrow> string option \<Rightarrow> string list list" where
  "decidingRows txt d s =
     filter (\<lambda>cols. field (headerOf txt) ''date'' cols = Some d \<and>
                    field (headerOf txt) ''service_id'' cols = s \<and>
                    (field (headerOf txt) ''exception_type'' cols = Some ''1'' \<or>
                     field (headerOf txt) ''exception_type'' cols = Some ''2''))
       (rowsOf txt)"

text \<open>
  The invariant of \<^verbatim>\<open>tripStops\<close> during step 4: the keys of the map are
  distinct, no group is empty, and every recorded stop code has passed the test
  against \<^verbatim>\<open>validStopCodes\<close>.
\<close>

definition validStops :: "tripStops \<Rightarrow> bool" where
  "validStops ts \<longleftrightarrow>
     distinct (map fst ts) \<and>
     (\<forall>(tid, evs) \<in> set ts. evs \<noteq> [] \<and> (\<forall>s \<in> set evs. set_has validStopCodes (stop_id s)))"




subsection \<open>Example feeds\<close>

text \<open>
  A comparator that orders strings by code units, for the place of the host's
  \<^verbatim>\<open>localeCompare\<close>, and small feeds for Monday 3 June 2024.
\<close>

definition codeUnitCompare :: "string \<Rightarrow> string \<Rightarrow> int" where
  "codeUnitCompare a b = (if a < b then - 1 else if a = b then 0 else 1)"

definition ex_date :: dateInfo where
  "ex_date = \<lparr>dateStr = ''20240603'', dayName = ''monday'', formattedDate = ''03/06/2024''\<rparr>"

definition ex_calendar :: string where
  "ex_calendar =
     ''service_id,monday,start_date,end_date'' @ [CHR 0x0A] @ ''S1,1,20240101,20241231''"

definition ex_calendar_dates :: string where
  "ex_calendar_dates =
     ''service_id,date,exception_type'' @ [CHR 0x0A] @
     ''S1,20240603,2'' @ [CHR 0x0A] @
     ''S2,20240603,2'' @ [CHR 0x0A] @
     ''S2,20240603,1'' @ [CHR 0x0A] @
     ''S2,20240603,3'' @ [CHR 0x0A] @
     ''S2,20240604,2''"

definition ex_trips :: string where
  "ex_trips = ''trip_id,service_id'' @ [CHR 0x0A] @ ''T1,S1''"

definition ex_stop_times :: string where
  "ex_stop_times =
     ''trip_id,departure_time,stop_id,stop_sequence'' @ [CHR 0x0A] @
     ''T1,08:00:00,11600,1'' @ [CHR 0x0A] @ ''T1,10:30:00,11305,2''"

definition ex_archive :: "string \<Rightarrow> string option" where
  "ex_archive =
     (\<lambda>_. None)(''calendar.txt'' := Some ex_calendar, ''trips.txt'' := Some ex_trips,
       ''stop_times.txt'' := Some ex_stop_times)"















definition ex_archive_calendar_only :: "string \<Rightarrow> string option" where
  "ex_archive_calendar_only = (\<lambda>_. None)(''calendar.txt'' := Some ex_calendar)"

definition ex_archive_empty :: "string \<Rightarrow> string option" where
  "ex_archive_empty = (\<lambda>_. None)"

section \<open>Auxiliary facts\<close>

subsection \<open>The messages before step 5\<close>

lemma collect_cases:
  "collectTripStops content di = (log, Inr ts) \<Longrightarrow>
     log = [msgFiltering di, msgCalendar,
            msgTrips (set_size (resolveServices (readFile content ''calendar.txt'')
              (readFile content ''calendar_dates.txt'') di)), msgStopTimes]"
  by (auto simp: collectTripStops_def Let_def split: option.splits if_splits)

subsection \<open>Arrays and sets\<close>

lemma split_not_Nil: "split c s \<noteq> []"
  by (induction s) (auto split: list.splits)

lemma indexOf_ge: "- 1 \<le> indexOf hs x"
  by (induction hs) (auto simp: Let_def)

lemma indexOf_m1_iff: "indexOf hs x = - 1 \<longleftrightarrow> x \<notin> set hs"
proof (induction hs)
  case Nil
  show ?case by simp
next
  case (Cons h hs)
  have "indexOf hs x + 1 \<noteq> - 1" using indexOf_ge [of hs x] by arith
  with Cons show ?case by (auto simp: Let_def)
qed

lemma set_set_add: "set (set_add x s) = insert x (set s)"
  by (auto simp: set_add_def)

lemma set_set_delete: "set (set_delete x s) = set s - {x}"
  by (auto simp: set_delete_def)

lemma headerOf_Nil: "headerOf [] = [[]]"
  by (simp add: headerOf_def trim_def)

lemma header_has_column: "x \<in> set (headerOf txt) \<Longrightarrow> x \<noteq> [] \<Longrightarrow> txt \<noteq> []"
  by (auto simp: headerOf_Nil)

lemma fold_calendarRow:
  "s \<in> set (fold (calendarRow iS iD iSt iE d) ls act) \<longleftrightarrow>
     s \<in> set act \<or>
     (\<exists>cols \<in> set (map (split CHR '','') (filter (\<lambda>l. l \<noteq> []) (map trim ls))).
        at cols iS = s \<and> at cols iD = Some ''1'' \<and> inRange d (at cols iSt) (at cols iE))"
proof (induction ls arbitrary: act)
  case Nil
  show ?case by simp
next
  case (Cons l ls)
  show ?case
    unfolding fold_simps Cons.IH
    by (auto simp: calendarRow_def Let_def set_set_add inRange_def js_ge_def js_le_def
          split: option.splits)
qed

subsection \<open>The exception loop\<close>

lemma exceptionRow_member:
  "s \<in> set (exceptionRow iS iD iT d l act) \<longleftrightarrow>
     (let cols = split CHR '','' (trim l) in
      if trim l \<noteq> [] \<and> at cols iD = Some d \<and> at cols iS = s \<and> at cols iT = Some ''1''
      then True
      else if trim l \<noteq> [] \<and> at cols iD = Some d \<and> at cols iS = s \<and> at cols iT = Some ''2''
      then False
      else s \<in> set act)"
  by (auto simp: exceptionRow_def Let_def set_set_add set_set_delete)

lemma fold_exceptionRow:
  "s \<in> set (fold (exceptionRow iS iD iT d) ls act) \<longleftrightarrow>
     (let dec = filter (\<lambda>cols. at cols iD = Some d \<and> at cols iS = s \<and>
                          (at cols iT = Some ''1'' \<or> at cols iT = Some ''2''))
                  (map (split CHR '','') (filter (\<lambda>l. l \<noteq> []) (map trim ls)))
      in if dec = [] then s \<in> set act else at (last dec) iT = Some ''1'')"
proof (induction ls rule: rev_induct)
  case Nil
  show ?case by simp
next
  case (snoc l ls)
  have "s \<in> set (fold (exceptionRow iS iD iT d) (ls @ [l]) act) \<longleftrightarrow>
        s \<in> set (exceptionRow iS iD iT d l (fold (exceptionRow iS iD iT d) ls act))"
    by simp
  also have "\<dots> \<longleftrightarrow>
     (let cols = split CHR '','' (trim l) in
      if trim l \<noteq> [] \<and> at cols iD = Some d \<and> at cols iS = s \<and> at cols iT = Some ''1''
      then True
      else if trim l \<noteq> [] \<and> at cols iD = Some d \<and> at cols iS = s \<and> at cols iT = Some ''2''
      then False
      else s \<in> set (fold (exceptionRow iS iD iT d) ls act))"
    by (rule exceptionRow_member)
  finally show ?case
    using snoc.IH by (auto simp: Let_def)
qed

lemma calendarDates_member:
  assumes "''service_id'' \<in> set (headerOf txt)"
    and "''date'' \<in> set (headerOf txt)"
    and "''exception_type'' \<in> set (headerOf txt)"
  shows "s \<in> set (calendarDates (Some txt) di act) \<longleftrightarrow>
           (if decidingRows txt (dateStr di) s = [] then s \<in> set act
            else field (headerOf txt) ''exception_type''
                   (last (decidingRows txt (dateStr di) s)) = Some ''1'')"
proof -
  from assms(1) have "txt \<noteq> []" by (rule header_has_column) simp
  with assms show ?thesis
    by (simp add: calendarDates_def Let_def indexOf_m1_iff fold_exceptionRow rowsOf_def
          field_def decidingRows_def)
qed

lemma exceptionRow_unchanged:
  "at (split CHR '','' (trim line)) iD \<noteq> Some d \<or>
   (at (split CHR '','' (trim line)) iT \<noteq> Some ''1'' \<and>
    at (split CHR '','' (trim line)) iT \<noteq> Some ''2'') \<Longrightarrow>
   exceptionRow iS iD iT d line act = act"
  by (auto simp: exceptionRow_def Let_def)

lemma exceptionRow_idem:
  "exceptionRow iS iD iT d line (exceptionRow iS iD iT d line act) =
   exceptionRow iS iD iT d line act"
  by (auto simp: exceptionRow_def Let_def set_add_def set_delete_def)


lemma exceptionRow_set:
  "trim line \<noteq> [] \<Longrightarrow> at (split CHR '','' (trim line)) iD = Some d \<Longrightarrow>
   set (exceptionRow iS iD iT d line act) =
     (if at (split CHR '','' (trim line)) iT = Some ''1''
      then insert (at (split CHR '','' (trim line)) iS) (set act)
      else if at (split CHR '','' (trim line)) iT = Some ''2''
      then set act - {at (split CHR '','' (trim line)) iS}
      else set act)"
  by (simp add: exceptionRow_def Let_def set_set_add set_set_delete)

subsection \<open>Sorting, sets and maps\<close>

lemma set_sort_insert: "set (sort_insert cmp x ys) = insert x (set ys)"
  by (induction ys) auto

lemma set_js_sort: "set (js_sort cmp xs) = set xs"
  by (induction xs) (auto simp: set_sort_insert)

lemma length_sort_insert: "length (sort_insert cmp x ys) = Suc (length ys)"
  by (induction ys) auto

lemma length_js_sort: "length (js_sort cmp xs) = length xs"
  by (induction xs) (auto simp: length_sort_insert)



lemma set_fold_set_add: "set (fold set_add xs s) = set s \<union> set xs"
  by (induction xs arbitrary: s) (auto simp: set_set_add)

lemma set_new_Set: "set (new_Set xs) = set xs"
  by (simp add: new_Set_def set_fold_set_add)

lemma map_of_map_set: "map_of (map_set k v m) = (map_of m)(k \<mapsto> v)"
  by (induction m) auto

lemma map_set_new: "k \<notin> fst ` set m \<Longrightarrow> map_set k v m = m @ [(k, v)]"
  by (induction m) auto

lemma map_set_last: "k \<notin> fst ` set m \<Longrightarrow> map_set k v (m @ [(k, u)]) = m @ [(k, v)]"
  by (induction m) auto

lemma keys_map_set_old: "k \<in> fst ` set m \<Longrightarrow> map fst (map_set k v m) = map fst m"
  by (induction m) force+

lemma set_map_set_old:
  "distinct (map fst m) \<Longrightarrow> (k, u) \<in> set m \<Longrightarrow>
   set (map_set k v m) = insert (k, v) (set m - {(k, u)})"
proof (induction m)
  case Nil
  then show ?case by simp
next
  case (Cons a m)
  show ?case
  proof (cases "fst a = k")
    case True
    with Cons.prems have "a = (k, u)" and "(k, u) \<notin> set m"
      by (auto simp: rev_image_eqI)
    with True show ?thesis by (cases a) auto
  next
    case False
    with Cons show ?thesis by (cases a) auto
  qed
qed

lemma dom_fold_map_set:
  "dom (map_of (fold (\<lambda>(k, v) m. map_set k v m) ps m)) = dom (map_of m) \<union> fst ` set ps"
  by (induction ps arbitrary: m) (auto simp: map_of_map_set)

lemma dom_new_Map: "dom (map_of (new_Map ps)) = fst ` set ps"
  by (simp add: new_Map_def dom_fold_map_set)

lemma valid_code_has_order:
  "set_has validStopCodes c \<longleftrightarrow> map_get codeToOrder c \<noteq> None"
proof -
  have "set validStopCodes = dom (map_of codeToOrder)"
    by (simp add: validStopCodes_def codeToOrder_def set_new_Set dom_new_Map image_image)
  then show ?thesis
    by (auto simp: set_has_def map_get_def)
qed

lemma forEachE_invariant:
  assumes "forEachE f xs s = Inr s'" and "P s"
    and "\<And>x t t'. x \<in> set xs \<Longrightarrow> P t \<Longrightarrow> f x t = Inr t' \<Longrightarrow> P t'"
  shows "P s'"
  using assms
proof (induction xs arbitrary: s)
  case Nil
  then show ?case by simp
next
  case (Cons x xs)
  from Cons.prems(1) obtain t where t: "f x s = Inr t" and r: "forEachE f xs t = Inr s'"
    by (auto split: sum.splits)
  from Cons.prems(2,3) t have "P t" by auto
  with r Cons.IH Cons.prems(3) show ?case by auto
qed

subsection \<open>The stop-time loop\<close>

lemma pushStop_new:
  assumes "map_get ts tripId = None"
  shows "pushStop tripId st ts = ts @ [(tripId, [st])]"
proof -
  from assms have k: "tripId \<notin> fst ` set ts"
    by (simp add: map_get_def map_of_eq_None_iff)
  have "map_get (ts @ [(tripId, [])]) tripId = Some []"
    using assms by (simp add: map_get_def map_add_def)
  with assms show ?thesis
    by (simp add: pushStop_def Let_def map_set_new [OF k] map_set_last [OF k])
qed

lemma pushStop_old:
  "map_get ts tripId = Some xs \<Longrightarrow> pushStop tripId st ts = map_set tripId (xs @ [st]) ts"
  by (simp add: pushStop_def Let_def)

lemma pushStop_valid:
  assumes "validStops ts" and "set_has validStopCodes (stop_id st)"
  shows "validStops (pushStop tripId st ts)"
proof (cases "map_get ts tripId")
  case None
  then have k: "tripId \<notin> fst ` set ts"
    by (simp add: map_get_def map_of_eq_None_iff)
  with assms show ?thesis
    unfolding pushStop_new [OF None] validStops_def by auto
next
  case (Some xs)
  then have x: "(tripId, xs) \<in> set ts"
    by (simp add: map_get_def map_of_SomeD)
  then have k: "tripId \<in> fst ` set ts" by force
  from assms have d: "distinct (map fst ts)" by (simp add: validStops_def)
  from assms x show ?thesis
    unfolding pushStop_old [OF Some] validStops_def
    by (auto simp: keys_map_set_old [OF k] set_map_set_old [OF d x])
qed

lemma stopTimeRow_valid:
  "stopTimeRow iT iD iS iQ act line ts = Inr ts' \<Longrightarrow> validStops ts \<Longrightarrow> validStops ts'"
  by (auto simp: stopTimeRow_def Let_def pushStop_valid split: if_splits option.splits)

lemma readStopTimes_valid:
  assumes "readStopTimes txt act = Inr ts"
  shows "validStops ts"
proof -
  have "validStops []" by (simp add: validStops_def)
  with assms show ?thesis
    unfolding readStopTimes_def Let_def
    by (rule forEachE_invariant) (rule stopTimeRow_valid)
qed

subsection \<open>The classification loop\<close>







lemma sorted_group_ends:
  assumes "evs \<noteq> []"
  shows "hd (js_sort cmp evs) \<in> set evs" and "last (js_sort cmp evs) \<in> set evs"
proof -
  from assms have "js_sort cmp evs \<noteq> []"
    using length_js_sort [of cmp evs] by (cases "js_sort cmp evs") auto
  then have "hd (js_sort cmp evs) \<in> set (js_sort cmp evs)"
    and "last (js_sort cmp evs) \<in> set (js_sort cmp evs)"
    by simp_all
  then show "hd (js_sort cmp evs) \<in> set evs" and "last (js_sort cmp evs) \<in> set evs"
    by (simp_all add: set_js_sort)
qed














subsection \<open>Failures of steps 3 to 5\<close>



















section \<open>Properties\<close>

subsection \<open>The base calendar\<close>

text \<open>
  Claim C1. For a \<^verbatim>\<open>calendar.txt\<close> whose header has the columns
  \<^verbatim>\<open>service_id\<close>, the weekday of the selected date, \<^verbatim>\<open>start_date\<close> and
  \<^verbatim>\<open>end_date\<close>, a service identifier is in the set after the base-calendar pass
  if and only if it was there before (the pass starts from the empty set) or some
  data row for that service has \<^verbatim>\<open>1\<close> in the weekday column and
  \<open>start_date \<le> dateStr \<le> end_date\<close> in the lexicographic order of strings.
\<close>

theorem base_calendar_membership:
  assumes "''service_id'' \<in> set (headerOf txt)"
    and "dayName di \<in> set (headerOf txt)"
    and "''start_date'' \<in> set (headerOf txt)"
    and "''end_date'' \<in> set (headerOf txt)"
  shows "s \<in> set (baseCalendar (Some txt) di act) \<longleftrightarrow>
           s \<in> set act \<or>
           (\<exists>cols \<in> set (rowsOf txt).
              field (headerOf txt) ''service_id'' cols = s \<and>
              field (headerOf txt) (dayName di) cols = Some ''1'' \<and>
              inRange (dateStr di) (field (headerOf txt) ''start_date'' cols)
                (field (headerOf txt) ''end_date'' cols))"
proof -
  from assms(1) have "txt \<noteq> []" by (rule header_has_column) simp
  with assms show ?thesis
    by (simp add: baseCalendar_def Let_def indexOf_m1_iff fold_calendarRow rowsOf_def field_def)
qed

text \<open>The example calendar activates \<^verbatim>\<open>S1\<close> and nothing else.\<close>

theorem base_calendar_membership_witness:
  "''service_id'' \<in> set (headerOf ex_calendar) \<and>
   dayName ex_date \<in> set (headerOf ex_calendar) \<and>
   ''start_date'' \<in> set (headerOf ex_calendar) \<and>
   ''end_date'' \<in> set (headerOf ex_calendar) \<and>
   Some ''S1'' \<in> set (baseCalendar (Some ex_calendar) ex_date []) \<and>
   Some ''S2'' \<notin> set (baseCalendar (Some ex_calendar) ex_date [])"
proof -
  have h1: "''service_id'' \<in> set (headerOf ex_calendar)" by code_simp
  have h2: "dayName ex_date \<in> set (headerOf ex_calendar)" by code_simp
  have h3: "''start_date'' \<in> set (headerOf ex_calendar)" by code_simp
  have h4: "''end_date'' \<in> set (headerOf ex_calendar)" by code_simp
  have r1: "\<exists>cols \<in> set (rowsOf ex_calendar).
              field (headerOf ex_calendar) ''service_id'' cols = Some ''S1'' \<and>
              field (headerOf ex_calendar) (dayName ex_date) cols = Some ''1'' \<and>
              inRange (dateStr ex_date) (field (headerOf ex_calendar) ''start_date'' cols)
                (field (headerOf ex_calendar) ''end_date'' cols)"
    by code_simp
  have r2: "\<not> (\<exists>cols \<in> set (rowsOf ex_calendar).
              field (headerOf ex_calendar) ''service_id'' cols = Some ''S2'' \<and>
              field (headerOf ex_calendar) (dayName ex_date) cols = Some ''1'' \<and>
              inRange (dateStr ex_date) (field (headerOf ex_calendar) ''start_date'' cols)
                (field (headerOf ex_calendar) ''end_date'' cols))"
    by code_simp
  show ?thesis
    using base_calendar_membership [OF h1 h2 h3 h4, of "Some ''S1''" "[]"]
      base_calendar_membership [OF h1 h2 h3 h4, of "Some ''S2''" "[]"] h1 h2 h3 h4 r1 r2
    by simp
qed

subsection \<open>Exceptions\<close>

text \<open>
  Claim C2. Exceptions are applied to the set that the whole base-calendar pass
  has produced. An exception row of the selected date is an operation on the
  set: type \<^verbatim>\<open>1\<close> inserts its service whether or not it was there, type
  \<^verbatim>\<open>2\<close> removes it whether or not it was there, and applying a row twice is the
  same as applying it once. Hence for a service with a deciding row the final
  membership is the same for every calendar text: the weekly rules do not matter.
\<close>

theorem exceptions_override_base:
  assumes "''service_id'' \<in> set (headerOf txt)"
    and "''date'' \<in> set (headerOf txt)"
    and "''exception_type'' \<in> set (headerOf txt)"
  shows "resolveServices cal (Some txt) di =
           calendarDates (Some txt) di (baseCalendar cal di []) \<and>
         (\<forall>line a.
            trim line \<noteq> [] \<and>
            field (headerOf txt) ''date'' (split CHR '','' (trim line)) = Some (dateStr di) \<longrightarrow>
            set (exceptionRow (indexOf (headerOf txt) ''service_id'')
                   (indexOf (headerOf txt) ''date'') (indexOf (headerOf txt) ''exception_type'')
                   (dateStr di) line a) =
              (if field (headerOf txt) ''exception_type'' (split CHR '','' (trim line)) = Some ''1''
               then insert (field (headerOf txt) ''service_id'' (split CHR '','' (trim line))) (set a)
               else if field (headerOf txt) ''exception_type'' (split CHR '','' (trim line)) = Some ''2''
               then set a - {field (headerOf txt) ''service_id'' (split CHR '','' (trim line))}
               else set a)) \<and>
         (\<forall>line a.
            exceptionRow (indexOf (headerOf txt) ''service_id'')
              (indexOf (headerOf txt) ''date'') (indexOf (headerOf txt) ''exception_type'')
              (dateStr di) line
              (exceptionRow (indexOf (headerOf txt) ''service_id'')
                 (indexOf (headerOf txt) ''date'') (indexOf (headerOf txt) ''exception_type'')
                 (dateStr di) line a) =
            exceptionRow (indexOf (headerOf txt) ''service_id'')
              (indexOf (headerOf txt) ''date'') (indexOf (headerOf txt) ''exception_type'')
              (dateStr di) line a) \<and>
         (decidingRows txt (dateStr di) s \<noteq> [] \<longrightarrow>
            (s \<in> set (resolveServices cal (Some txt) di) \<longleftrightarrow>
             field (headerOf txt) ''exception_type''
               (last (decidingRows txt (dateStr di) s)) = Some ''1''))"
proof (intro conjI allI impI)
  show "resolveServices cal (Some txt) di =
           calendarDates (Some txt) di (baseCalendar cal di [])"
    by (simp add: resolveServices_def)
next
  fix line a
  assume "trim line \<noteq> [] \<and>
            field (headerOf txt) ''date'' (split CHR '','' (trim line)) = Some (dateStr di)"
  then show "set (exceptionRow (indexOf (headerOf txt) ''service_id'')
                   (indexOf (headerOf txt) ''date'') (indexOf (headerOf txt) ''exception_type'')
                   (dateStr di) line a) =
              (if field (headerOf txt) ''exception_type'' (split CHR '','' (trim line)) = Some ''1''
               then insert (field (headerOf txt) ''service_id'' (split CHR '','' (trim line))) (set a)
               else if field (headerOf txt) ''exception_type'' (split CHR '','' (trim line)) = Some ''2''
               then set a - {field (headerOf txt) ''service_id'' (split CHR '','' (trim line))}
               else set a)"
    unfolding field_def by (simp add: exceptionRow_set)
next
  fix line a
  show "exceptionRow (indexOf (headerOf txt) ''service_id'')
              (indexOf (headerOf txt) ''date'') (indexOf (headerOf txt) ''exception_type'')
              (dateStr di) line
              (exceptionRow (indexOf (headerOf txt) ''service_id'')
                 (indexOf (headerOf txt) ''date'') (indexOf (headerOf txt) ''exception_type'')
                 (dateStr di) line a) =
            exceptionRow (indexOf (headerOf txt) ''service_id'')
              (indexOf (headerOf txt) ''date'') (indexOf (headerOf txt) ''exception_type'')
              (dateStr di) line a"
    by (rule exceptionRow_idem)
next
  assume "decidingRows txt (dateStr di) s \<noteq> []"
  then show "s \<in> set (resolveServices cal (Some txt) di) \<longleftrightarrow>
             field (headerOf txt) ''exception_type''
               (last (decidingRows txt (dateStr di) s)) = Some ''1''"
    using calendarDates_member [OF assms, of s di "baseCalendar cal di []"]
    by (simp add: resolveServices_def)
qed

text \<open>
  In the example \<^verbatim>\<open>S1\<close> is granted by the weekly rule and removed by its
  exception.
\<close>

theorem exceptions_override_base_witness:
  "''service_id'' \<in> set (headerOf ex_calendar_dates) \<and>
   ''date'' \<in> set (headerOf ex_calendar_dates) \<and>
   ''exception_type'' \<in> set (headerOf ex_calendar_dates) \<and>
   Some ''S1'' \<in> set (baseCalendar (Some ex_calendar) ex_date []) \<and>
   decidingRows ex_calendar_dates (dateStr ex_date) (Some ''S1'') = [[''S1'', ''20240603'', ''2'']] \<and>
   Some ''S1'' \<notin> set (resolveServices (Some ex_calendar) (Some ex_calendar_dates) ex_date) \<and>
   trim ''S2,20240603,1'' \<noteq> [] \<and>
   set (exceptionRow 0 1 2 ''20240603'' ''S2,20240603,1'' []) = {Some ''S2''}"
proof -
  have h1: "''service_id'' \<in> set (headerOf ex_calendar_dates)" by code_simp
  have h2: "''date'' \<in> set (headerOf ex_calendar_dates)" by code_simp
  have h3: "''exception_type'' \<in> set (headerOf ex_calendar_dates)" by code_simp
  have b: "Some ''S1'' \<in> set (baseCalendar (Some ex_calendar) ex_date [])" by code_simp
  have d: "decidingRows ex_calendar_dates (dateStr ex_date) (Some ''S1'') =
             [[''S1'', ''20240603'', ''2'']]"
    by code_simp
  have f: "field (headerOf ex_calendar_dates) ''exception_type'' [''S1'', ''20240603'', ''2'']
             = Some ''2''"
    by code_simp
  have i: "indexOf (headerOf ex_calendar_dates) ''service_id'' = 0"
    "indexOf (headerOf ex_calendar_dates) ''date'' = 1"
    "indexOf (headerOf ex_calendar_dates) ''exception_type'' = 2"
    "dateStr ex_date = ''20240603''"
    by code_simp+
  have n: "trim ''S2,20240603,1'' \<noteq> []" by code_simp
  have u: "field (headerOf ex_calendar_dates) ''date'' (split CHR '','' (trim ''S2,20240603,1''))
             = Some ''20240603''"
    "field (headerOf ex_calendar_dates) ''exception_type''
       (split CHR '','' (trim ''S2,20240603,1'')) = Some ''1''"
    "field (headerOf ex_calendar_dates) ''service_id''
       (split CHR '','' (trim ''S2,20240603,1'')) = Some ''S2''"
    by code_simp+
  note t = exceptions_override_base [OF h1 h2 h3, of "Some ex_calendar" ex_date "Some ''S1''"]
  from t [THEN conjunct2, THEN conjunct2, THEN conjunct2] d f have m:
    "Some ''S1'' \<notin> set (resolveServices (Some ex_calendar) (Some ex_calendar_dates) ex_date)"
    by simp
  from t [THEN conjunct2, THEN conjunct1] n u i
  have r: "set (exceptionRow 0 1 2 ''20240603'' ''S2,20240603,1'' []) = {Some ''S2''}"
    by simp
  from h1 h2 h3 b d m n r show ?thesis by simp
qed

text \<open>
  Claim C10. With several exception rows for one service on the selected date,
  the last one of type \<^verbatim>\<open>1\<close> or \<^verbatim>\<open>2\<close> in file order decides: the service is
  in the set exactly when that row has type \<^verbatim>\<open>1\<close>; with no such row the
  membership is what it was before. A row of another date or of another type
  leaves the set as it is.
\<close>

theorem exceptions_last_row_decides:
  assumes "''service_id'' \<in> set (headerOf txt)"
    and "''date'' \<in> set (headerOf txt)"
    and "''exception_type'' \<in> set (headerOf txt)"
  shows "(s \<in> set (calendarDates (Some txt) di act) \<longleftrightarrow>
            (if decidingRows txt (dateStr di) s = [] then s \<in> set act
             else field (headerOf txt) ''exception_type''
                    (last (decidingRows txt (dateStr di) s)) = Some ''1'')) \<and>
         (\<forall>line a.
            field (headerOf txt) ''date'' (split CHR '','' (trim line)) \<noteq> Some (dateStr di) \<or>
            (field (headerOf txt) ''exception_type'' (split CHR '','' (trim line)) \<noteq> Some ''1'' \<and>
             field (headerOf txt) ''exception_type'' (split CHR '','' (trim line)) \<noteq> Some ''2'') \<longrightarrow>
            exceptionRow (indexOf (headerOf txt) ''service_id'') (indexOf (headerOf txt) ''date'')
              (indexOf (headerOf txt) ''exception_type'') (dateStr di) line a = a)"
proof (intro conjI allI impI)
  show "s \<in> set (calendarDates (Some txt) di act) \<longleftrightarrow>
            (if decidingRows txt (dateStr di) s = [] then s \<in> set act
             else field (headerOf txt) ''exception_type''
                    (last (decidingRows txt (dateStr di) s)) = Some ''1'')"
    using assms by (rule calendarDates_member)
next
  fix line a
  assume "field (headerOf txt) ''date'' (split CHR '','' (trim line)) \<noteq> Some (dateStr di) \<or>
            (field (headerOf txt) ''exception_type'' (split CHR '','' (trim line)) \<noteq> Some ''1'' \<and>
             field (headerOf txt) ''exception_type'' (split CHR '','' (trim line)) \<noteq> Some ''2'')"
  then show "exceptionRow (indexOf (headerOf txt) ''service_id'') (indexOf (headerOf txt) ''date'')
              (indexOf (headerOf txt) ''exception_type'') (dateStr di) line a = a"
    unfolding field_def by (rule exceptionRow_unchanged)
qed

text \<open>
  In the example \<^verbatim>\<open>S2\<close> is removed and then added: it is active. The rows of
  type \<^verbatim>\<open>3\<close> and of the next day change nothing.
\<close>

theorem exceptions_last_row_decides_witness:
  "''service_id'' \<in> set (headerOf ex_calendar_dates) \<and>
   ''date'' \<in> set (headerOf ex_calendar_dates) \<and>
   ''exception_type'' \<in> set (headerOf ex_calendar_dates) \<and>
   decidingRows ex_calendar_dates (dateStr ex_date) (Some ''S2'') =
     [[''S2'', ''20240603'', ''2''], [''S2'', ''20240603'', ''1'']] \<and>
   Some ''S2'' \<in> set (calendarDates (Some ex_calendar_dates) ex_date []) \<and>
   exceptionRow 0 1 2 ''20240603'' ''S2,20240603,3'' [] = [] \<and>
   exceptionRow 0 1 2 ''20240603'' ''S2,20240604,2'' [Some ''S2''] = [Some ''S2'']"
proof -
  have h1: "''service_id'' \<in> set (headerOf ex_calendar_dates)" by code_simp
  have h2: "''date'' \<in> set (headerOf ex_calendar_dates)" by code_simp
  have h3: "''exception_type'' \<in> set (headerOf ex_calendar_dates)" by code_simp
  have d: "decidingRows ex_calendar_dates (dateStr ex_date) (Some ''S2'') =
     [[''S2'', ''20240603'', ''2''], [''S2'', ''20240603'', ''1'']]"
    by code_simp
  have f: "field (headerOf ex_calendar_dates) ''exception_type'' [''S2'', ''20240603'', ''1'']
             = Some ''1''"
    by code_simp
  have i: "indexOf (headerOf ex_calendar_dates) ''service_id'' = 0"
    "indexOf (headerOf ex_calendar_dates) ''date'' = 1"
    "indexOf (headerOf ex_calendar_dates) ''exception_type'' = 2"
    "dateStr ex_date = ''20240603''"
    by code_simp+
  have u1: "field (headerOf ex_calendar_dates) ''exception_type''
              (split CHR '','' (trim ''S2,20240603,3'')) = Some ''3''"
    by code_simp
  have u2: "field (headerOf ex_calendar_dates) ''date''
              (split CHR '','' (trim ''S2,20240604,2'')) = Some ''20240604''"
    by code_simp
  note t = exceptions_last_row_decides [OF h1 h2 h3, of "Some ''S2''" ex_date "[]"]
  from t d f have m: "Some ''S2'' \<in> set (calendarDates (Some ex_calendar_dates) ex_date [])"
    by simp
  from t u1 i have r1: "exceptionRow 0 1 2 ''20240603'' ''S2,20240603,3'' [] = []"
    by simp
  from t u2 i have r2:
    "exceptionRow 0 1 2 ''20240603'' ''S2,20240604,2'' [Some ''S2''] = [Some ''S2'']"
    by simp
  from h1 h2 h3 d m r1 r2 show ?thesis by simp
qed

subsection \<open>Classification\<close>

text \<open>
  Claim C8. Every stop event that step 4 records has a stop code with a corridor
  position: the set of valid codes and the keys of the position lookup are the
  same set, both being built from \<open>GIPUZKOA_STATIONS\<close>. So for every group that
  reaches step 5 the lookups for its first and its last stop succeed, and the
  defensive return is never taken.
\<close>

theorem corridor_lookup_never_fails:
  assumes "readStopTimes txt activeTrips = Inr ts"
  shows "set validStopCodes = fst ` set codeToOrder \<and>
         (\<forall>(tid, evs) \<in> set ts. \<forall>s \<in> set evs.
            set_has validStopCodes (stop_id s) \<and> map_get codeToOrder (stop_id s) \<noteq> None) \<and>
         (\<forall>(tid, evs) \<in> set ts.
            evs \<noteq> [] \<and>
            map_get codeToOrder (stop_id (hd (js_sort seqCompare evs))) \<noteq> None \<and>
            map_get codeToOrder (stop_id (last (js_sort seqCompare evs))) \<noteq> None)"
proof -
  have t: "set validStopCodes = fst ` set codeToOrder"
    by (simp add: validStopCodes_def codeToOrder_def set_new_Set
          dom_new_Map [unfolded dom_map_of_conv_image_fst] image_image)
  from assms have v: "validStops ts" by (rule readStopTimes_valid)
  have a: "\<forall>(tid, evs) \<in> set ts. \<forall>s \<in> set evs.
            set_has validStopCodes (stop_id s) \<and> map_get codeToOrder (stop_id s) \<noteq> None"
  proof (clarify, intro conjI)
    fix tid evs s
    assume "(tid, evs) \<in> set ts" and "s \<in> set evs"
    with v show h: "set_has validStopCodes (stop_id s)"
      by (fastforce simp: validStops_def)
    then show "map_get codeToOrder (stop_id s) \<noteq> None"
      by (simp add: valid_code_has_order)
  qed
  have b: "\<forall>(tid, evs) \<in> set ts.
            evs \<noteq> [] \<and>
            map_get codeToOrder (stop_id (hd (js_sort seqCompare evs))) \<noteq> None \<and>
            map_get codeToOrder (stop_id (last (js_sort seqCompare evs))) \<noteq> None"
  proof (clarify, intro conjI)
    fix tid evs
    assume g: "(tid, evs) \<in> set ts"
    with v show ne: "evs \<noteq> []" by (auto simp: validStops_def)
    from a g have o: "\<forall>s \<in> set evs. map_get codeToOrder (stop_id s) \<noteq> None" by auto
    from o sorted_group_ends(1) [OF ne, of seqCompare]
    show "map_get codeToOrder (stop_id (hd (js_sort seqCompare evs))) \<noteq> None" by blast
    from o sorted_group_ends(2) [OF ne, of seqCompare]
    show "map_get codeToOrder (stop_id (last (js_sort seqCompare evs))) \<noteq> None" by blast
  qed
  from t a b show ?thesis by blast
qed

text \<open>The two stops of the example trip have positions.\<close>

theorem corridor_lookup_never_fails_witness:
  "readStopTimes ex_stop_times [Some ''T1''] =
     Inr [(Some ''T1'',
           [\<lparr>trip_id = Some ''T1'', arrival_time = [], departure_time = Some ''08:00:00'',
             stop_id = ''11600'', stop_sequence = Some 1\<rparr>,
            \<lparr>trip_id = Some ''T1'', arrival_time = [], departure_time = Some ''10:30:00'',
             stop_id = ''11305'', stop_sequence = Some 2\<rparr>])] \<and>
   map_get codeToOrder ''11600'' \<noteq> None \<and> map_get codeToOrder ''11305'' \<noteq> None"
proof -
  have h: "readStopTimes ex_stop_times [Some ''T1''] =
     Inr [(Some ''T1'',
           [\<lparr>trip_id = Some ''T1'', arrival_time = [], departure_time = Some ''08:00:00'',
             stop_id = ''11600'', stop_sequence = Some 1\<rparr>,
            \<lparr>trip_id = Some ''T1'', arrival_time = [], departure_time = Some ''10:30:00'',
             stop_id = ''11305'', stop_sequence = Some 2\<rparr>])]"
    by code_simp
  from corridor_lookup_never_fails [OF h] h show ?thesis by simp
qed




subsection \<open>Order of the lists\<close>



subsection \<open>Missing columns and malformed sequence numbers\<close>







subsection \<open>Missing trips.txt\<close>

text \<open>
  Claim C5, as amended. When \<^verbatim>\<open>trips.txt\<close> is absent from the archive, the
  function throws the error that names \<^verbatim>\<open>trips.txt\<close> if the resolved set of
  active services is not empty; if it is empty, the function has already thrown
  the error for "no active services", because that test comes before the archive
  is asked for \<^verbatim>\<open>trips.txt\<close>.
\<close>

theorem missing_trips_error:
  assumes "readFile content ''trips.txt'' = None"
  shows "snd (parseGTFS lc content di) =
           (if set_size (resolveServices (readFile content ''calendar.txt'')
                 (readFile content ''calendar_dates.txt'') di) = 0
            then Inl (errNoServices di) else Inl (errMissing ''trips.txt''))"
  using assms by (simp add: parseGTFS_def collectTripStops_def Let_def)

text \<open>With only a calendar in the archive, the error names \<^verbatim>\<open>trips.txt\<close>.\<close>

theorem missing_trips_error_witness:
  "readFile ex_archive_calendar_only ''trips.txt'' = None \<and>
   snd (parseGTFS codeUnitCompare ex_archive_calendar_only ex_date) =
     Inl (Error (''No se encontr'' @ [CHR 0xF3] @ '' trips.txt''))"
proof -
  have h: "readFile ex_archive_calendar_only ''trips.txt'' = None"
    by code_simp
  have n: "set_size (resolveServices (readFile ex_archive_calendar_only ''calendar.txt'')
                 (readFile ex_archive_calendar_only ''calendar_dates.txt'') ex_date) = 1"
    by code_simp
  show ?thesis
    using missing_trips_error [OF h, of codeUnitCompare ex_date] h n
    by (simp add: errMissing_def)
qed

text \<open>
  Claim C5 as first stated fails on the empty archive: \<^verbatim>\<open>trips.txt\<close> is absent,
  the resolved set is empty, and the error is the one for "no active services".
\<close>

theorem missing_trips_empty_services_counterexample:
  "readFile ex_archive_empty ''trips.txt'' = None \<and>
   snd (parseGTFS codeUnitCompare ex_archive_empty ex_date) =
     Inl (Error ''No se encontraron servicios activos para la fecha 03/06/2024.'')"
  by code_simp

subsection \<open>Progress messages\<close>

text \<open>
  Claim C9, as amended. An invocation that returns a result has passed exactly
  five messages to \<^verbatim>\<open>onProgress\<close>, in this order: the announcement of the date
  being filtered (before the archive is opened), then the start of calendar and
  exception resolution, the start of active-trip filtering, the start of
  stop-time reading and the start of direction classification.
\<close>

theorem progress_on_success:
  assumes "snd (parseGTFS lc content di) = Inr r"
  shows "fst (parseGTFS lc content di) =
           [msgFiltering di, msgCalendar,
            msgTrips (set_size (resolveServices (readFile content ''calendar.txt'')
              (readFile content ''calendar_dates.txt'') di)), msgStopTimes, msgDirections]"
proof -
  obtain log res where c: "collectTripStops content di = (log, res)"
    by (cases "collectTripStops content di")
  from assms c obtain ts where res: "res = Inr ts"
    by (cases res) (auto simp: parseGTFS_def)
  from assms c res obtain dirs where d: "buildResults ts = Inr dirs"
    by (cases "buildResults ts") (auto simp: parseGTFS_def Let_def)
  from c res have "log = [msgFiltering di, msgCalendar,
            msgTrips (set_size (resolveServices (readFile content ''calendar.txt'')
              (readFile content ''calendar_dates.txt'') di)), msgStopTimes]"
    by (simp add: collect_cases)
  with c res d show ?thesis
    by (simp add: parseGTFS_def Let_def)
qed

text \<open>The five messages of the example feed.\<close>

theorem progress_on_success_witness:
  "snd (parseGTFS codeUnitCompare ex_archive ex_date) =
     Inr \<lparr>toBrinkola =
            [\<lparr>id_trip = Some ''T1'',
              stops = [(''11600'', ''08:00''), (''11305'', ''10:30'')],
              firstStopOrder = 1, lastStopOrder = 27,
              departureFromOrigin = ''08:00:00''\<rparr>],
          toIrun = [], dateUsed = ''03/06/2024''\<rparr> \<and>
   fst (parseGTFS codeUnitCompare ex_archive ex_date) =
     [''Filtrando para fecha: 03/06/2024 (monday)...'',
      ''Analizando calendario y excepciones...'',
      ''Procesando viajes activos (1 servicios)...'',
      ''Leyendo horarios...'', ''Organizando direcciones...'']"
proof -
  have s: "snd (parseGTFS codeUnitCompare ex_archive ex_date) =
     Inr \<lparr>toBrinkola =
            [\<lparr>id_trip = Some ''T1'',
              stops = [(''11600'', ''08:00''), (''11305'', ''10:30'')],
              firstStopOrder = 1, lastStopOrder = 27,
              departureFromOrigin = ''08:00:00''\<rparr>],
          toIrun = [], dateUsed = ''03/06/2024''\<rparr>"
    by code_simp
  have m: "[msgFiltering ex_date, msgCalendar,
            msgTrips (set_size (resolveServices (readFile ex_archive ''calendar.txt'')
              (readFile ex_archive ''calendar_dates.txt'') ex_date)), msgStopTimes, msgDirections]
     = [''Filtrando para fecha: 03/06/2024 (monday)...'',
      ''Analizando calendario y excepciones...'',
      ''Procesando viajes activos (1 servicios)...'',
      ''Leyendo horarios...'', ''Organizando direcciones...'']"
    by code_simp
  show ?thesis
    using progress_on_success [OF s] s m by simp
qed

text \<open>
  Claim C9 as first stated (exactly four messages) fails on the example feed,
  which returns a result after five messages.
\<close>

theorem four_checkpoints_counterexample:
  "snd (parseGTFS codeUnitCompare ex_archive ex_date) =
     Inr \<lparr>toBrinkola =
            [\<lparr>id_trip = Some ''T1'',
              stops = [(''11600'', ''08:00''), (''11305'', ''10:30'')],
              firstStopOrder = 1, lastStopOrder = 27,
              departureFromOrigin = ''08:00:00''\<rparr>],
          toIrun = [], dateUsed = ''03/06/2024''\<rparr> \<and>
   length (fst (parseGTFS codeUnitCompare ex_archive ex_date)) = 5"
  by code_simp

end
